theory Spec2Isabelle
  imports Main "HOL-Library.AList"
begin

section \<open>Data model of \<open>app.py\<close>\<close>

text \<open>
  The server keeps two module-level dictionaries, \<open>active_rooms\<close>
  (\<open>{room_id: {user_sid: username}}\<close>) and \<open>messages\<close> (\<open>{room_id: [message, ...]}\<close>).
  A Python dictionary keeps its keys in insertion order, assignment to an existing key
  keeps the key's position and \<open>del\<close> removes the key, so a dictionary is an association
  list handled with \<open>AList.update\<close> (replace in place, else append) and \<open>AList.delete\<close>;
  \<open>map_of\<close> is the lookup and \<open>map snd\<close> is \<open>.values()\<close>.

  A Python \<open>str\<close> is a \<open>string\<close> whose characters stand for the code points 0 to 255 (one
  \<open>char\<close> per code point), so \<open>length\<close> is Python's \<open>len\<close>.
  Connection ids (\<open>request.sid\<close>), room ids, usernames and timestamps are strings. The
  payloads of the three signalling events are never inspected by the server and are
  carried as strings; an attachment descriptor is the \<open>{id, filename, url}\<close> object that
  the upload endpoint returns.
\<close>

type_synonym sid = string
type_synonym opaque = string

record attachment =
  file_id :: string
  filename :: string
  url :: string

text \<open>The dictionary \<open>message_data\<close> built by \<open>handle_message\<close>, key by key.\<close>

record message =
  msg_id :: string
  msg_username :: string
  msg_message :: string
  msg_timestamp :: string
  msg_file :: "attachment option"

text \<open>
  The payload dictionaries passed to \<open>emit\<close>; the constructor is the event name and the
  arguments are the values of the dictionary's keys in the order of the source.
\<close>

datatype payload =
    Join_confirmation string string "string list" "message list"
      \<comment> \<open>username, room_id, users, messages\<close>
  | User_joined string string "string list" string
      \<comment> \<open>username, message, users, timestamp\<close>
  | User_left string string string "string list"
      \<comment> \<open>username, message, timestamp, users\<close>
  | New_message message
  | Webrtc_offer "opaque option" sid string
      \<comment> \<open>offer, caller_sid, caller_username\<close>
  | Webrtc_answer "opaque option" sid
      \<comment> \<open>answer, sender_sid\<close>
  | Ice_candidate "opaque option" sid
      \<comment> \<open>candidate, sender_sid\<close>

text \<open>
  One call of \<open>emit(event, payload, room=..., include_self=...)\<close>. \<open>to_room\<close> is \<open>None\<close>
  when the call gives no \<open>room\<close> (or gives \<open>None\<close>); \<open>include_self\<close> defaults to \<open>True\<close>.
\<close>

datatype emit = Emit (payload: payload) (to_room: "string option") (include_self: bool)

text \<open>
  The acknowledgements returned to the caller, \<open>{'status': 'success'}\<close> and
  \<open>{'status': 'error', 'message': m}\<close>, and the exceptions that end a handler without an
  acknowledgement: the one a missing dictionary key raises and the one \<open>join_room\<close> raises.
\<close>

datatype ack = Ack_success | Ack_error string

datatype py_error = KeyError | ValueError

definition InvalidUsername :: ack where
  "InvalidUsername = Ack_error ''Username must be 2-20 characters''"

definition UsernameTaken :: ack where
  "UsernameTaken = Ack_error ''Username already taken''"

definition NotInRoom :: ack where
  "NotInRoom = Ack_error ''Not in room''"

definition EmptyMessage :: ack where
  "EmptyMessage = Ack_error ''Message cannot be empty''"

text \<open>
  The state the handlers read and write. \<open>active_rooms\<close> and \<open>messages\<close> are the two
  dictionaries of the module. The other three fields are what the handlers reach through
  library calls: Flask-SocketIO's table of rooms (pairs of room name and connection, which
  \<open>join_room\<close> extends and to which \<open>emit(..., room=...)\<close> addresses events), its set of
  live connections, and the number of identifiers \<open>uuid.uuid4\<close> has handed to
  \<open>handle_message\<close> so far.
\<close>

record state =
  active_rooms :: "(string \<times> (sid \<times> string) list) list"
  messages :: "(string \<times> message list) list"
  sio_rooms :: "(string \<times> sid) list"
  sio_connected :: "sid list"
  uuid_calls :: nat

definition init :: state where
  "init = \<lparr>active_rooms = [], messages = [], sio_rooms = [], sio_connected = [], uuid_calls = 0\<rparr>"

text \<open>The request data of the events: a key that the client left out is \<open>None\<close>.\<close>

record join_data =
  jd_username :: "string option"
  jd_room_id :: "string option"

record send_data =
  sd_room_id :: "string option"
  sd_message :: "string option"
  sd_file :: "attachment option"

record offer_data =
  od_target_sid :: "string option"
  od_offer :: "opaque option"
  od_room_id :: "string option"

record signal_data =
  gd_target_sid :: "string option"
  gd_payload :: "opaque option"

section \<open>Python built-ins used by the handlers\<close>

text \<open>\<open>str.isspace\<close> on the code points 0 to 255, and \<open>str.strip()\<close>.\<close>

definition isspace :: "char \<Rightarrow> bool" where
  "isspace c = ((of_char c :: nat) \<in> {9, 10, 11, 12, 13, 28, 29, 30, 31, 32, 133, 160})"

definition strip :: "string \<Rightarrow> string" where
  "strip s = rev (dropWhile isspace (rev (dropWhile isspace s)))"

text \<open>\<open>d.get(k, default)\<close> on the request data.\<close>

definition get_default :: "'a option \<Rightarrow> 'a \<Rightarrow> 'a" where
  "get_default v d = (case v of None \<Rightarrow> d | Some x \<Rightarrow> x)"

text \<open>\<open>k in d\<close> on a dictionary.\<close>

definition contains :: "('k \<times> 'v) list \<Rightarrow> 'k \<Rightarrow> bool" where
  "contains d k = (map_of d k \<noteq> None)"

text \<open>The slice \<open>xs[-n:]\<close> for a positive \<open>n\<close>: the whole list when it is no longer than \<open>n\<close>.\<close>

definition slice_last :: "nat \<Rightarrow> 'a list \<Rightarrow> 'a list" where
  "slice_last n xs = (if length xs \<le> n then xs else drop (length xs - n) xs)"

section \<open>Flask-SocketIO calls used by the handlers\<close>

text \<open>
  \<open>join_room(room)\<close> puts the calling connection into the named room, or raises
  \<open>ValueError\<close> and changes nothing. When it raises is the library's rule, not the
  application's: the rule is the parameter \<open>raises\<close> of the handlers (from the table of
  rooms, the live connections, the room and the caller), and the properties below are proved
  for every rule. On connect the library puts every connection into a room named by its own
  id, and on disconnect it takes the connection out of every room, after the application's
  handler has run.
\<close>

type_synonym join_rule = "(string \<times> sid) list \<Rightarrow> sid list \<Rightarrow> string \<Rightarrow> sid \<Rightarrow> bool"

definition join_room :: "join_rule \<Rightarrow> string \<Rightarrow> sid \<Rightarrow> state \<Rightarrow> py_error + state" where
  "join_room raises room c s =
     (if raises (sio_rooms s) (sio_connected s) room c then Inl ValueError
      else Inr (s\<lparr>sio_rooms := List.insert (room, c) (sio_rooms s)\<rparr>))"

text \<open>
  The rule of the examples: the library keeps the room named by the id of a live connection
  for that connection and refuses a \<open>join_room\<close> into it.
\<close>

definition refuse_sid_rooms :: join_rule where
  "refuse_sid_rooms rooms connected room c = (room \<in> set connected)"

definition sio_connect :: "sid \<Rightarrow> state \<Rightarrow> state" where
  "sio_connect c s =
     s\<lparr>sio_connected := List.insert c (sio_connected s),
       sio_rooms := List.insert (c, c) (sio_rooms s)\<rparr>"

definition sio_disconnect :: "sid \<Rightarrow> state \<Rightarrow> state" where
  "sio_disconnect c s =
     s\<lparr>sio_connected := removeAll c (sio_connected s),
       sio_rooms := filter (\<lambda>rc. snd rc \<noteq> c) (sio_rooms s)\<rparr>"

text \<open>
  The connections an emitted event reaches. A call that names no room addresses the
  sender's own room. A room name that is the empty string counts as no room on the
  library's side, and the event goes to every live connection. Any other name addresses
  the connections in the room of that name. The sender is left out when \<open>include_self\<close>
  is false.
\<close>

definition recipients :: "state \<Rightarrow> sid \<Rightarrow> emit \<Rightarrow> sid list" where
  "recipients s sender e =
     (let reached =
            (case to_room e of
               None \<Rightarrow> map snd (filter (\<lambda>rc. fst rc = sender) (sio_rooms s))
             | Some room \<Rightarrow>
                 if room = [] then sio_connected s
                 else map snd (filter (\<lambda>rc. fst rc = room) (sio_rooms s)))
      in if include_self e then reached else removeAll sender reached)"

section \<open>The event handlers\<close>

text \<open>\<open>handle_connect\<close> only prints; the store is untouched.\<close>

definition handle_connect :: "state \<Rightarrow> sid \<Rightarrow> state" where
  "handle_connect s request_sid = s"

text \<open>
  \<open>handle_disconnect\<close> walks a snapshot of \<open>active_rooms.items()\<close>. The inner dictionary
  \<open>users\<close> of the snapshot is the object stored in \<open>active_rooms\<close>, so deleting the
  connection from it is an update of that room's entry. The clock is read once for each
  notification, \<open>now room_id\<close> being the reading at that room.
\<close>

fun disconnect_rooms ::
  "sid \<Rightarrow> (string \<Rightarrow> string) \<Rightarrow> (string \<times> (sid \<times> string) list) list \<Rightarrow> state
     \<Rightarrow> state \<times> emit list" where
  "disconnect_rooms request_sid now [] s = (s, [])"
| "disconnect_rooms request_sid now ((room_id, users) # rest) s =
     (case map_of users request_sid of
        None \<Rightarrow> disconnect_rooms request_sid now rest s
      | Some username \<Rightarrow>
          (let users' = AList.delete request_sid users in
           if users' \<noteq> [] then
             (let s' = s\<lparr>active_rooms := AList.update room_id users' (active_rooms s)\<rparr>;
                  e = Emit (User_left username (username @ '' has left the room'')
                              (now room_id) (map snd users')) (Some room_id) True;
                  (s'', es) = disconnect_rooms request_sid now rest s'
              in (s'', e # es))
           else
             disconnect_rooms request_sid now rest
               (s\<lparr>active_rooms := AList.delete room_id (active_rooms s),
                  messages := AList.delete room_id (messages s)\<rparr>)))"

definition handle_disconnect :: "state \<Rightarrow> sid \<Rightarrow> (string \<Rightarrow> string) \<Rightarrow> state \<times> emit list" where
  "handle_disconnect s request_sid now = disconnect_rooms request_sid now (active_rooms s) s"

text \<open>
  \<open>on_join\<close>. The two subscript reads \<open>active_rooms[room_id]\<close> and \<open>messages[room_id]\<close>
  raise \<open>KeyError\<close> on a missing key, and \<open>join_room\<close>, called after the member has been
  written, may raise \<open>ValueError\<close>; nothing catches either, and what was written before the
  exception stays written.
\<close>

definition on_join ::
  "join_rule \<Rightarrow> state \<Rightarrow> sid \<Rightarrow> join_data \<Rightarrow> string
     \<Rightarrow> state \<times> emit list \<times> (py_error + ack)" where
  "on_join raises s request_sid data now =
     (let username = strip (get_default (jd_username data) '''');
          room_id = get_default (jd_room_id data) ''lobby''
      in
      if username = [] \<or> length username < 2 \<or> length username > 20 then
        (s, [], Inr (Ack_error ''Username must be 2-20 characters''))
      else
        (let s1 = (if \<not> contains (active_rooms s) room_id
                   then s\<lparr>active_rooms := AList.update room_id [] (active_rooms s),
                          messages := AList.update room_id [] (messages s)\<rparr>
                   else s)
         in
         case map_of (active_rooms s1) room_id of
           None \<Rightarrow> (s1, [], Inl KeyError)
         | Some users \<Rightarrow>
             if username \<in> set (map snd users) then
               (s1, [], Inr (Ack_error ''Username already taken''))
             else
               (let users' = AList.update request_sid username users;
                    s2 = s1\<lparr>active_rooms := AList.update room_id users' (active_rooms s1)\<rparr>
                in
                case join_room raises room_id request_sid s2 of
                  Inl err \<Rightarrow> (s2, [], Inl err)
                | Inr s3 \<Rightarrow>
                    (case map_of (messages s3) room_id of
                       None \<Rightarrow> (s3, [], Inl KeyError)
                     | Some history \<Rightarrow>
                         (s3,
                          [Emit (Join_confirmation username room_id (map snd users')
                                   (slice_last 50 history)) None True,
                           Emit (User_joined ''System'' (username @ '' has joined the room'')
                                   (map snd users') now) (Some room_id) False],
                          Inr Ack_success)))))"

text \<open>
  \<open>handle_message\<close>. \<open>uuid\<close> is the sequence of strings that \<open>str(uuid.uuid4())\<close> returns,
  in the order of the calls; the handler draws the next one when the validation has passed.
\<close>

definition handle_message ::
  "(nat \<Rightarrow> string) \<Rightarrow> state \<Rightarrow> sid \<Rightarrow> send_data \<Rightarrow> string
     \<Rightarrow> state \<times> emit list \<times> (py_error + ack)" where
  "handle_message uuid s request_sid data now =
     (let message = strip (get_default (sd_message data) '''');
          file_info = sd_file data
      in
      case sd_room_id data of
        None \<Rightarrow> (s, [], Inr (Ack_error ''Not in room''))
      | Some room_id \<Rightarrow>
          (case map_of (active_rooms s) room_id of
             None \<Rightarrow> (s, [], Inr (Ack_error ''Not in room''))
           | Some users \<Rightarrow>
               (case map_of users request_sid of
                  None \<Rightarrow> (s, [], Inr (Ack_error ''Not in room''))
                | Some username \<Rightarrow>
                    if message = [] \<and> file_info = None then
                      (s, [], Inr (Ack_error ''Message cannot be empty''))
                    else
                      (let message_data =
                             \<lparr>msg_id = uuid (uuid_calls s), msg_username = username,
                              msg_message = message, msg_timestamp = now,
                              msg_file = file_info\<rparr>;
                           s1 = s\<lparr>uuid_calls := Suc (uuid_calls s)\<rparr>
                       in
                       case map_of (messages s1) room_id of
                         None \<Rightarrow> (s1, [], Inl KeyError)
                       | Some history \<Rightarrow>
                           (s1\<lparr>messages :=
                                 AList.update room_id (history @ [message_data]) (messages s1)\<rparr>,
                            [Emit (New_message message_data) (Some room_id) True],
                            Inr Ack_success)))))"

text \<open>
  The three signalling handlers read the store, emit one event and return nothing.
  \<open>handle_offer\<close> looks the caller up in the room named by the request's \<open>room_id\<close>
  (\<open>''\<close> when the key is absent): an empty dictionary is the default of the first
  lookup and \<open>'Someone'\<close> the default of the second.
\<close>

definition handle_offer :: "state \<Rightarrow> sid \<Rightarrow> offer_data \<Rightarrow> emit list" where
  "handle_offer s request_sid data =
     (let target_sid = od_target_sid data;
          offer = od_offer data;
          caller_username =
            get_default
              (map_of (get_default (map_of (active_rooms s) (get_default (od_room_id data) ''''))
                         [])
                 request_sid)
              ''Someone''
      in [Emit (Webrtc_offer offer request_sid caller_username) target_sid True])"

definition handle_answer :: "state \<Rightarrow> sid \<Rightarrow> signal_data \<Rightarrow> emit list" where
  "handle_answer s request_sid data =
     (let target_sid = gd_target_sid data;
          answer = gd_payload data
      in [Emit (Webrtc_answer answer request_sid) target_sid True])"

definition handle_ice_candidate :: "state \<Rightarrow> sid \<Rightarrow> signal_data \<Rightarrow> emit list" where
  "handle_ice_candidate s request_sid data =
     (let target_sid = gd_target_sid data;
          candidate = gd_payload data
      in [Emit (Ice_candidate candidate request_sid) target_sid True])"

section \<open>Runs of the server\<close>

text \<open>
  The inbound events, each with the connection it comes from and the clock readings its
  handler takes. A run starts from the empty store and handles one event after the other.
\<close>

datatype event =
    Connect sid
  | Disconnect sid "string \<Rightarrow> string"
  | Join sid join_data string
  | Send_message sid send_data string
  | Offer sid offer_data
  | Answer sid signal_data
  | Candidate sid signal_data

fun step :: "join_rule \<Rightarrow> (nat \<Rightarrow> string) \<Rightarrow> state \<Rightarrow> event \<Rightarrow> state" where
  "step raises uuid s (Connect c) = handle_connect (sio_connect c s) c"
| "step raises uuid s (Disconnect c now) = sio_disconnect c (fst (handle_disconnect s c now))"
| "step raises uuid s (Join c data now) = fst (on_join raises s c data now)"
| "step raises uuid s (Send_message c data now) = fst (handle_message uuid s c data now)"
| "step raises uuid s (Offer c data) = s"
| "step raises uuid s (Answer c data) = s"
| "step raises uuid s (Candidate c data) = s"

definition run :: "join_rule \<Rightarrow> (nat \<Rightarrow> string) \<Rightarrow> event list \<Rightarrow> state" where
  "run raises uuid evs = foldl (step raises uuid) init evs"




text \<open>Views of the store used to state the properties.\<close>

definition members :: "state \<Rightarrow> string \<Rightarrow> (sid \<times> string) list" where
  "members s room_id = get_default (map_of (active_rooms s) room_id) []"

definition history :: "state \<Rightarrow> string \<Rightarrow> message list" where
  "history s room_id = get_default (map_of (messages s) room_id) []"

text \<open>The connection is a recorded member of the room the request names.\<close>

definition in_room :: "state \<Rightarrow> sid \<Rightarrow> string option \<Rightarrow> bool" where
  "in_room s c room = (case room of None \<Rightarrow> False | Some r \<Rightarrow> contains (members s r) c)"

definition rooms_of :: "state \<Rightarrow> sid \<Rightarrow> string list" where
  "rooms_of s c = map fst (filter (\<lambda>ru. contains (snd ru) c) (active_rooms s))"

text \<open>A departure notification.\<close>

definition is_user_left :: "emit \<Rightarrow> bool" where
  "is_user_left e = (case payload e of User_left u m t us \<Rightarrow> True | _ \<Rightarrow> False)"

text \<open>
  The username inside a relayed signalling payload: of the three dictionaries only the
  offer has a username key, \<open>caller_username\<close>.
\<close>

definition relayed_username :: "payload \<Rightarrow> string option" where
  "relayed_username p = (case p of Webrtc_offer offer caller_sid caller_username \<Rightarrow> Some caller_username
                         | _ \<Rightarrow> None)"

section \<open>Invariants of the store\<close>

text \<open>
  The room ids of the two dictionaries agree; no room is stored without a member; the room
  ids of \<open>active_rooms\<close> are pairwise distinct (it is a dictionary); the id of every stored
  message is one of the identifiers drawn so far; every live connection is in the room named
  by its own id. In an orderly run, moreover, every recorded member of a room is in the
  Flask-SocketIO room of that name and is a live connection.
\<close>

definition keys_agree :: "state \<Rightarrow> bool" where
  "keys_agree s = (set (map fst (active_rooms s)) = set (map fst (messages s)))"

definition no_empty_room :: "state \<Rightarrow> bool" where
  "no_empty_room s = list_all (\<lambda>ru. snd ru \<noteq> []) (active_rooms s)"

definition rooms_distinct :: "state \<Rightarrow> bool" where
  "rooms_distinct s = distinct (map fst (active_rooms s))"



definition own_rooms :: "state \<Rightarrow> bool" where
  "own_rooms s = list_all (\<lambda>x. (x, x) \<in> set (sio_rooms s)) (sio_connected s)"

definition ids_drawn :: "(nat \<Rightarrow> string) \<Rightarrow> state \<Rightarrow> bool" where
  "ids_drawn uuid s =
     list_all (\<lambda>rh. list_all (\<lambda>m. msg_id m \<in> uuid ` {..<uuid_calls s}) (snd rh))
       (messages s)"

text \<open>
  What the loop of \<open>handle_disconnect\<close> does to \<open>active_rooms\<close>, in one pass: a room
  that lists the connection and nobody else goes, every other room stays in place without
  the connection.
\<close>

definition emptied :: "sid \<Rightarrow> string \<times> (sid \<times> string) list \<Rightarrow> bool" where
  "emptied c ru = (contains (snd ru) c \<and> AList.delete c (snd ru) = [])"

definition purge ::
  "sid \<Rightarrow> (string \<times> (sid \<times> string) list) list \<Rightarrow> (string \<times> (sid \<times> string) list) list" where
  "purge c rooms =
     map (\<lambda>ru. (fst ru, AList.delete c (snd ru))) (filter (\<lambda>ru. \<not> emptied c ru) rooms)"

text \<open>The invariants together, along every run.\<close>

definition wf_state :: "(nat \<Rightarrow> string) \<Rightarrow> state \<Rightarrow> bool" where
  "wf_state uuid s =
     (rooms_distinct s \<and> keys_agree s \<and> no_empty_room s \<and> own_rooms s \<and> ids_drawn uuid s)"

section \<open>Example runs\<close>

text \<open>A sequence of pairwise distinct identifiers, standing for the draws of \<open>uuid4\<close>.\<close>

definition uuid0 :: "nat \<Rightarrow> string" where
  "uuid0 n = ''uuid-'' @ replicate n CHR ''x''"

text \<open>Connection \<open>A\<close> has connected and joined room \<open>r1\<close> as \<open>alice\<close>.\<close>

definition alice_in_r1 :: state where
  "alice_in_r1 =
     run refuse_sid_rooms uuid0 [Connect ''A'',
                Join ''A'' \<lparr>jd_username = Some ''alice'', jd_room_id = Some ''r1''\<rparr> ''t1'']"

text \<open>Room \<open>r1\<close> with member \<open>A\<close> and sixty messages in its history; \<open>B\<close> is connected.\<close>

definition sixty :: "message list" where
  "sixty = map (\<lambda>n. \<lparr>msg_id = uuid0 n, msg_username = ''alice'', msg_message = ''hi'',
                       msg_timestamp = ''t'', msg_file = None\<rparr>) [0..<60]"

definition r1_with_sixty :: state where
  "r1_with_sixty =
     \<lparr>active_rooms = [(''r1'', [(''A'', ''alice'')])], messages = [(''r1'', sixty)],
      sio_rooms = [(''r1'', ''A''), (''A'', ''A''), (''B'', ''B'')],
      sio_connected = [''B'', ''A''], uuid_calls = 60\<rparr>"

text \<open>\<open>A\<close> and \<open>B\<close> have connected and joined \<open>r1\<close> as \<open>alice\<close> and \<open>bob\<close>.\<close>

definition two_in_r1 :: state where
  "two_in_r1 =
     run refuse_sid_rooms uuid0 [Connect ''A'',
                Join ''A'' \<lparr>jd_username = Some ''alice'', jd_room_id = Some ''r1''\<rparr> ''t1'',
                Connect ''B'',
                Join ''B'' \<lparr>jd_username = Some ''bob'', jd_room_id = Some ''r1''\<rparr> ''t2'']"

text \<open>Then \<open>B\<close> disconnects.\<close>

definition bob_gone :: state where
  "bob_gone = step refuse_sid_rooms uuid0 two_in_r1 (Disconnect ''B'' (\<lambda>r. ''t3''))"

text \<open>\<open>A\<close> is in \<open>r1\<close> as \<open>alice\<close>; \<open>B\<close> has connected and joined no room.\<close>

definition caller_outside :: state where
  "caller_outside = step refuse_sid_rooms uuid0 alice_in_r1 (Connect ''B'')"


text \<open>\<open>A\<close> has connected and joined, as \<open>alice\<close>, the room whose id is the empty string.\<close>

definition alice_in_unnamed :: state where
  "alice_in_unnamed =
     run refuse_sid_rooms uuid0
       [Connect ''A'',
        Join ''A'' \<lparr>jd_username = Some ''alice'', jd_room_id = Some ''''\<rparr> ''t1'']"

section \<open>Evaluating the handlers\<close>

lemmas handler_defs = run_def init_def sio_connect_def sio_disconnect_def handle_connect_def
  handle_disconnect_def on_join_def handle_message_def handle_offer_def handle_answer_def
  handle_ice_candidate_def get_default_def strip_def isspace_def contains_def join_room_def
  refuse_sid_rooms_def
  slice_last_def Let_def InvalidUsername_def UsernameTaken_def NotInRoom_def EmptyMessage_def

lemma alice_in_r1_eq:
  "alice_in_r1 =
     \<lparr>active_rooms = [(''r1'', [(''A'', ''alice'')])], messages = [(''r1'', [])],
      sio_rooms = [(''r1'', ''A''), (''A'', ''A'')], sio_connected = [''A''], uuid_calls = 0\<rparr>"
  by (simp add: alice_in_r1_def handler_defs)

section \<open>The loop of \<open>handle_disconnect\<close> in closed form\<close>

lemma purge_Nil [simp]: "purge c [] = []"
  by (simp add: purge_def)

lemma purge_Cons:
  "purge c ((r, u) # rest) = (if emptied c (r, u) then purge c rest else (r, AList.delete c u) # purge c rest)"
  by (simp add: purge_def)

lemma keys_purge: "fst ` set (purge c rooms) \<subseteq> fst ` set rooms"
  by (force simp: purge_def)

lemma map_of_None_delete: "map_of u c = None \<Longrightarrow> AList.delete c u = u"
  by (simp add: map_of_eq_None_iff)

lemma update_fresh_split:
  "r \<notin> fst ` set pre \<Longrightarrow> AList.update r v (pre @ (r, u) # rest) = pre @ (r, v) # rest"
  by (induction pre) auto

lemma delete_fresh_split:
  "r \<notin> fst ` set pre \<Longrightarrow> r \<notin> fst ` set rest \<Longrightarrow> AList.delete r (pre @ (r, u) # rest) = pre @ rest"
  by (induction pre) auto

lemma disconnect_rooms_fst_Cons:
  "fst (disconnect_rooms c now ((r, u) # rest) s) =
     (case map_of u c of
        None \<Rightarrow> fst (disconnect_rooms c now rest s)
      | Some name \<Rightarrow>
          if AList.delete c u \<noteq> [] then
            fst (disconnect_rooms c now rest
                   (s\<lparr>active_rooms := AList.update r (AList.delete c u) (active_rooms s)\<rparr>))
          else
            fst (disconnect_rooms c now rest
                   (s\<lparr>active_rooms := AList.delete r (active_rooms s),
                      messages := AList.delete r (messages s)\<rparr>)))"
  by (simp add: Let_def split: option.splits prod.splits)

lemma disconnect_rooms_active:
  "distinct (map fst (pre @ snap)) \<Longrightarrow> active_rooms s = pre @ snap \<Longrightarrow>
   active_rooms (fst (disconnect_rooms c now snap s)) = pre @ purge c snap"
proof (induction snap arbitrary: pre s)
  case Nil
  then show ?case by simp
next
  case (Cons ru rest)
  obtain r u where ru: "ru = (r, u)" by (cases ru)
  have fresh: "r \<notin> fst ` set pre" "r \<notin> fst ` set rest"
    using Cons.prems(1) by (auto simp: ru)
  show ?case
  proof (cases "map_of u c")
    case None
    have d: "distinct (map fst ((pre @ [(r, u)]) @ rest))" using Cons.prems(1) by (simp add: ru)
    have a: "active_rooms s = (pre @ [(r, u)]) @ rest" using Cons.prems(2) by (simp add: ru)
    have "\<not> emptied c (r, u)" using None by (simp add: emptied_def contains_def)
    then show ?thesis
      using Cons.IH[OF d a] None by (simp add: ru purge_Cons map_of_None_delete)
  next
    case (Some name)
    show ?thesis
    proof (cases "AList.delete c u = []")
      case True
      let ?s = "s\<lparr>active_rooms := AList.delete r (active_rooms s), messages := AList.delete r (messages s)\<rparr>"
      have a: "active_rooms ?s = pre @ rest"
        using Cons.prems(2) fresh by (simp add: ru delete_fresh_split)
      have d: "distinct (map fst (pre @ rest))" using Cons.prems(1) by (simp add: ru)
      have "emptied c (r, u)" using Some True by (simp add: emptied_def contains_def)
      then show ?thesis
        using Cons.IH[OF d a] Some True by (simp add: ru purge_Cons disconnect_rooms_fst_Cons del: disconnect_rooms.simps)
    next
      case False
      let ?s = "s\<lparr>active_rooms := AList.update r (AList.delete c u) (active_rooms s)\<rparr>"
      have a: "active_rooms ?s = (pre @ [(r, AList.delete c u)]) @ rest"
        using Cons.prems(2) fresh by (simp add: ru update_fresh_split)
      have d: "distinct (map fst ((pre @ [(r, AList.delete c u)]) @ rest))" using Cons.prems(1) by (simp add: ru)
      have "\<not> emptied c (r, u)" using False by (simp add: emptied_def)
      then show ?thesis
        using Cons.IH[OF d a] Some False by (simp add: ru purge_Cons disconnect_rooms_fst_Cons del: disconnect_rooms.simps)
    qed
  qed
qed

lemma disconnect_rooms_messages:
  "messages (fst (disconnect_rooms c now snap s)) =
     filter (\<lambda>rh. fst rh \<notin> fst ` set (filter (emptied c) snap)) (messages s)"
proof (induction snap arbitrary: s)
  case Nil
  then show ?case by simp
next
  case (Cons ru rest)
  obtain r u where ru: "ru = (r, u)" by (cases ru)
  show ?case
  proof (cases "map_of u c")
    case None
    then show ?thesis using Cons.IH[of s] by (simp add: ru emptied_def contains_def disconnect_rooms_fst_Cons del: disconnect_rooms.simps)
  next
    case (Some name)
    show ?thesis
    proof (cases "AList.delete c u = []")
      case True
      then show ?thesis using Some Cons.IH
        by (auto simp: ru emptied_def contains_def AList.delete_eq disconnect_rooms_fst_Cons simp del: disconnect_rooms.simps intro!: filter_cong)
    next
      case False
      then show ?thesis using Some Cons.IH
        by (simp add: ru emptied_def contains_def disconnect_rooms_fst_Cons del: disconnect_rooms.simps)
    qed
  qed
qed

lemma disconnect_rooms_other:
  "sio_rooms (fst (disconnect_rooms c now snap s)) = sio_rooms s \<and>
   sio_connected (fst (disconnect_rooms c now snap s)) = sio_connected s \<and>
   uuid_calls (fst (disconnect_rooms c now snap s)) = uuid_calls s"
  by (induction snap arbitrary: s) (auto simp: disconnect_rooms_fst_Cons simp del: disconnect_rooms.simps(2) split: option.splits)






section \<open>The outcome of \<open>on_join\<close>, case by case\<close>

lemma get_default_simps [simp]:
  "get_default None d = d" "get_default (Some x) d = x"
  by (simp_all add: get_default_def)

lemma contains_iff: "contains d k \<longleftrightarrow> k \<in> fst ` set d"
  by (simp add: contains_def map_of_eq_None_iff)

lemma map_of_Some_key: "map_of al k = Some v \<Longrightarrow> k \<in> fst ` set al"
  by (force dest: map_of_SomeD)

lemma set_update_subset: "set (AList.update k v al) \<subseteq> insert (k, v) (set al)"
  by (induction al) auto

lemma set_delete: "set (AList.delete k al) = {p \<in> set al. fst p \<noteq> k}"
  by (auto simp: AList.delete_eq)

lemma on_join_result:
  "on_join raises s c d now =
     (let u = strip (get_default (jd_username d) '''');
          r = get_default (jd_room_id d) ''lobby'';
          s2 = s\<lparr>active_rooms := AList.update r (AList.update c u (members s r)) (active_rooms s),
                 messages := (if contains (active_rooms s) r then messages s
                              else AList.update r [] (messages s))\<rparr>;
          s3 = s2\<lparr>sio_rooms := List.insert (r, c) (sio_rooms s)\<rparr>
      in
      if length u < 2 \<or> 20 < length u then (s, [], Inr InvalidUsername)
      else if u \<in> set (map snd (members s r)) then (s, [], Inr UsernameTaken)
      else if raises (sio_rooms s) (sio_connected s) r c then (s2, [], Inl ValueError)
      else
        (case map_of (messages s2) r of
           None \<Rightarrow> (s3, [], Inl KeyError)
         | Some h \<Rightarrow>
             (s3,
              [Emit (Join_confirmation u r (map snd (AList.update c u (members s r)))
                       (slice_last 50 h)) None True,
               Emit (User_joined ''System'' (u @ '' has joined the room'')
                       (map snd (AList.update c u (members s r))) now) (Some r) False],
              Inr Ack_success)))"
proof (cases "map_of (active_rooms s) (get_default (jd_room_id d) ''lobby'')")
  case None
  then show ?thesis
    by (auto simp: on_join_def Let_def contains_def members_def join_room_def
          AList.update_conv' InvalidUsername_def UsernameTaken_def split: option.splits)
next
  case (Some users)
  then show ?thesis
    by (auto simp: on_join_def Let_def contains_def members_def join_room_def
          InvalidUsername_def UsernameTaken_def split: option.splits)
qed

text \<open>What \<open>on_join\<close> does to each part of the state.\<close>

lemma on_join_active_rooms:
  "active_rooms (fst (on_join raises s c d now)) = active_rooms s \<or>
   active_rooms (fst (on_join raises s c d now)) =
     AList.update (get_default (jd_room_id d) ''lobby'')
       (AList.update c (strip (get_default (jd_username d) ''''))
          (members s (get_default (jd_room_id d) ''lobby''))) (active_rooms s)"
  by (simp add: on_join_result Let_def split: option.splits)

lemma on_join_messages:
  "messages (fst (on_join raises s c d now)) = messages s \<or>
   (\<not> contains (active_rooms s) (get_default (jd_room_id d) ''lobby'') \<and>
    messages (fst (on_join raises s c d now)) =
      AList.update (get_default (jd_room_id d) ''lobby'') [] (messages s))"
  by (simp add: on_join_result Let_def split: option.splits)

lemma on_join_sio_connected:
  "sio_connected (fst (on_join raises s c d now)) = sio_connected s"
  by (simp add: on_join_result Let_def split: option.splits)

lemma on_join_uuid_calls:
  "uuid_calls (fst (on_join raises s c d now)) = uuid_calls s"
  by (simp add: on_join_result Let_def split: option.splits)

lemma on_join_sio_rooms:
  "set (sio_rooms s) \<subseteq> set (sio_rooms (fst (on_join raises s c d now)))"
  by (auto simp: on_join_result Let_def split: option.splits)
section \<open>The invariants hold along every run\<close>

lemma handle_disconnect_active:
  "rooms_distinct s \<Longrightarrow> active_rooms (fst (handle_disconnect s c now)) = purge c (active_rooms s)"
  using disconnect_rooms_active[of "[]" "active_rooms s" s c now]
  by (simp add: handle_disconnect_def rooms_distinct_def)

lemma handle_disconnect_messages:
  "messages (fst (handle_disconnect s c now)) =
     filter (\<lambda>rh. fst rh \<notin> fst ` set (filter (emptied c) (active_rooms s))) (messages s)"
  by (simp add: handle_disconnect_def disconnect_rooms_messages)

lemma handle_disconnect_other:
  "sio_rooms (fst (handle_disconnect s c now)) = sio_rooms s"
  "sio_connected (fst (handle_disconnect s c now)) = sio_connected s"
  "uuid_calls (fst (handle_disconnect s c now)) = uuid_calls s"
  by (simp_all add: handle_disconnect_def disconnect_rooms_other)

lemma keys_purge_eq:
  "fst ` set (purge c rooms) = fst ` set rooms - fst ` set (filter (emptied c) rooms)" if "distinct (map fst rooms)"
  using that by (induction rooms) (auto simp: purge_def image_iff)



lemma own_rooms_iff:
  "own_rooms s \<longleftrightarrow> (\<forall>x. x \<in> set (sio_connected s) \<longrightarrow> (x, x) \<in> set (sio_rooms s))"
  by (auto simp: own_rooms_def list_all_iff)

lemma ids_drawn_iff:
  "ids_drawn uuid s \<longleftrightarrow>
     (\<forall>r h m. (r, h) \<in> set (messages s) \<longrightarrow> m \<in> set h \<longrightarrow> msg_id m \<in> uuid ` {..<uuid_calls s})"
  by (fastforce simp: ids_drawn_def list_all_iff)

lemma no_empty_room_iff:
  "no_empty_room s \<longleftrightarrow> (\<forall>r u. (r, u) \<in> set (active_rooms s) \<longrightarrow> u \<noteq> [])"
  by (fastforce simp: no_empty_room_def list_all_iff)


lemma on_join_rooms_distinct:
  "rooms_distinct s \<Longrightarrow> rooms_distinct (fst (on_join raises s c d now))"
  using on_join_active_rooms[of raises s c d now]
  by (auto simp: rooms_distinct_def AList.distinct_update)

lemma on_join_keys_agree: "keys_agree s \<Longrightarrow> keys_agree (fst (on_join raises s c d now))"
  by (auto simp: on_join_result keys_agree_def Let_def AList.dom_update contains_iff
        split: option.splits)

lemma on_join_no_empty_room:
  assumes "no_empty_room s"
  shows "no_empty_room (fst (on_join raises s c d now))"
proof -
  have "u \<noteq> []" if "(r, u) \<in> set (active_rooms (fst (on_join raises s c d now)))" for r u
  proof -
    from on_join_active_rooms[of raises s c d now] that
    have "(r, u) \<in> set (active_rooms s) \<or> (\<exists>x n m. u = AList.update x n m)"
      using set_update_subset by fastforce
    then show ?thesis
    proof
      assume "(r, u) \<in> set (active_rooms s)"
      then show ?thesis using assms unfolding no_empty_room_iff by blast
    next
      assume "\<exists>x n m. u = AList.update x n m"
      then obtain x n m where "u = AList.update x n m" by blast
      then show ?thesis by simp
    qed
  qed
  then show ?thesis by (simp add: no_empty_room_iff)
qed

lemma on_join_own_rooms: "own_rooms s \<Longrightarrow> own_rooms (fst (on_join raises s c d now))"
  using on_join_sio_rooms[of s raises c d now]
  by (auto simp: own_rooms_iff on_join_sio_connected)

lemma on_join_ids_drawn:
  "ids_drawn uuid s \<Longrightarrow> ids_drawn uuid (fst (on_join raises s c d now))"
  using on_join_messages[of raises s c d now]
  by (auto simp: ids_drawn_iff on_join_uuid_calls dest!: set_mp[OF set_update_subset])



lemma handle_message_active:
  "active_rooms (fst (handle_message uuid s c d now)) = active_rooms s"
  "sio_rooms (fst (handle_message uuid s c d now)) = sio_rooms s"
  by (auto simp: handle_message_def Let_def split: option.splits)

lemma handle_message_keys:
  "set (map fst (messages (fst (handle_message uuid s c d now)))) = set (map fst (messages s))"
  by (auto simp: handle_message_def Let_def AList.dom_update split: option.splits dest: map_of_Some_key)

lemma handle_message_ids_drawn:
  "ids_drawn uuid s \<Longrightarrow> ids_drawn uuid (fst (handle_message uuid s c d now))"
  unfolding ids_drawn_iff
  by (auto simp: handle_message_def Let_def lessThan_Suc
        split: option.splits if_splits dest!: set_mp[OF set_update_subset] map_of_SomeD)

lemma set_purge:
  "set (purge c rooms) = (\<lambda>ru. (fst ru, AList.delete c (snd ru))) ` {ru \<in> set rooms. \<not> emptied c ru}"
  by (simp add: purge_def)

lemma disconnect_rooms_distinct:
  "rooms_distinct s \<Longrightarrow> rooms_distinct (step raises uuid s (Disconnect c now))"
  by (simp add: rooms_distinct_def sio_disconnect_def handle_disconnect_active purge_def
        comp_def distinct_map_filter)

lemma disconnect_keys_agree:
  assumes "rooms_distinct s" "keys_agree s"
  shows "keys_agree (step raises uuid s (Disconnect c now))"
proof -
  have "fst ` set (purge c (active_rooms s))
          = fst ` set (active_rooms s) - fst ` set (filter (emptied c) (active_rooms s))"
    using assms(1) by (simp add: keys_purge_eq rooms_distinct_def)
  moreover have "fst ` set (filter (\<lambda>rh. fst rh \<notin> fst ` set (filter (emptied c) (active_rooms s))) (messages s))
          = fst ` set (messages s) - fst ` set (filter (emptied c) (active_rooms s))"
    by force
  ultimately show ?thesis
    using assms
    by (simp add: keys_agree_def sio_disconnect_def handle_disconnect_active
          handle_disconnect_messages)
qed

lemma disconnect_no_empty_room:
  assumes "rooms_distinct s" "no_empty_room s"
  shows "no_empty_room (step raises uuid s (Disconnect c now))"
proof -
  have "u' \<noteq> []" if "(r, u') \<in> set (purge c (active_rooms s))" for r u'
  proof -
    from that obtain u where u: "(r, u) \<in> set (active_rooms s)" "\<not> emptied c (r, u)"
      "u' = AList.delete c u"
      by (auto simp: set_purge)
    show ?thesis
    proof (cases "contains u c")
      case True
      then show ?thesis using u by (simp add: emptied_def)
    next
      case False
      then have "AList.delete c u = u" by (simp add: contains_def map_of_None_delete)
      then show ?thesis using u assms(2) by (auto simp: no_empty_room_iff)
    qed
  qed
  then show ?thesis
    using assms(1) by (simp add: no_empty_room_iff sio_disconnect_def handle_disconnect_active)
qed


lemma disconnect_ids_drawn:
  "ids_drawn uuid s \<Longrightarrow> ids_drawn uuid (step raises uuid s (Disconnect c now))"
  by (auto simp: ids_drawn_iff sio_disconnect_def handle_disconnect_messages handle_disconnect_other)


lemma disconnect_own_rooms:
  "own_rooms s \<Longrightarrow> own_rooms (step raises uuid s (Disconnect c now))"
  by (auto simp: own_rooms_iff sio_disconnect_def handle_disconnect_other)

lemma handle_message_other:
  "sio_connected (fst (handle_message uuid s c d now)) = sio_connected s"
  by (auto simp: handle_message_def Let_def split: option.splits)

lemma wf_init: "wf_state uuid init"
  by (simp add: wf_state_def init_def rooms_distinct_def keys_agree_def no_empty_room_def
        own_rooms_def ids_drawn_def)

lemma wf_connect: "wf_state uuid s \<Longrightarrow> wf_state uuid (step raises uuid s (Connect c))"
  by (auto simp: wf_state_def handle_connect_def sio_connect_def rooms_distinct_def keys_agree_def
        no_empty_room_def own_rooms_iff ids_drawn_iff)

lemma wf_step: "wf_state uuid s \<Longrightarrow> wf_state uuid (step raises uuid s e)"
proof (cases e)
  case (Connect c)
  assume "wf_state uuid s"
  then show ?thesis unfolding Connect by (rule wf_connect)
next
  case (Disconnect c now)
  assume "wf_state uuid s"
  then show ?thesis
    unfolding Disconnect wf_state_def
    by (intro conjI disconnect_rooms_distinct disconnect_keys_agree disconnect_no_empty_room
          disconnect_own_rooms disconnect_ids_drawn) simp_all
next
  case (Join c d now)
  assume "wf_state uuid s"
  then show ?thesis
    by (simp add: Join wf_state_def on_join_rooms_distinct on_join_keys_agree
          on_join_no_empty_room on_join_own_rooms on_join_ids_drawn)
next
  case (Send_message c d now)
  assume "wf_state uuid s"
  then show ?thesis
    using handle_message_keys[of uuid s c d now]
    by (simp add: Send_message wf_state_def rooms_distinct_def keys_agree_def no_empty_room_def
          own_rooms_def handle_message_active handle_message_other handle_message_ids_drawn)
qed (simp_all)

lemma wf_foldl: "wf_state uuid s \<Longrightarrow> wf_state uuid (foldl (step raises uuid) s evs)"
  by (induction evs arbitrary: s) (simp_all add: wf_step)

lemma wf_run: "wf_state uuid (run raises uuid evs)"
  by (simp add: run_def wf_foldl wf_init)




section \<open>Auxiliary facts for the properties\<close>

lemma keys_agree_messages:
  "keys_agree s \<Longrightarrow> map_of (active_rooms s) r = Some u \<Longrightarrow> \<exists>h. map_of (messages s) r = Some h"
proof -
  assume a: "keys_agree s" "map_of (active_rooms s) r = Some u"
  then have "r \<in> fst ` set (messages s)"
    using map_of_Some_key[of "active_rooms s" r u] by (simp add: keys_agree_def)
  then have "map_of (messages s) r \<noteq> None" by (simp add: map_of_eq_None_iff)
  then show ?thesis by blast
qed

lemma slice_last_suffix: "\<exists>older. xs = older @ slice_last n xs"
proof -
  have "slice_last n xs = drop (length xs - n) xs" by (simp add: slice_last_def)
  then have "xs = take (length xs - n) xs @ slice_last n xs" by simp
  then show ?thesis ..
qed

lemma length_slice_last: "length (slice_last n xs) = min n (length xs)"
  by (simp add: slice_last_def)

lemma two_in_r1_eq:
  "two_in_r1 =
     \<lparr>active_rooms = [(''r1'', [(''A'', ''alice''), (''B'', ''bob'')])], messages = [(''r1'', [])],
      sio_rooms = [(''r1'', ''B''), (''B'', ''B''), (''r1'', ''A''), (''A'', ''A'')],
      sio_connected = [''B'', ''A''], uuid_calls = 0\<rparr>"
  by (simp add: two_in_r1_def handler_defs)

lemma bob_gone_eq:
  "bob_gone =
     \<lparr>active_rooms = [(''r1'', [(''A'', ''alice'')])], messages = [(''r1'', [])],
      sio_rooms = [(''r1'', ''A''), (''A'', ''A'')], sio_connected = [''A''], uuid_calls = 0\<rparr>"
  by (simp add: bob_gone_def two_in_r1_eq handler_defs)

lemma caller_outside_eq:
  "caller_outside =
     \<lparr>active_rooms = [(''r1'', [(''A'', ''alice'')])], messages = [(''r1'', [])],
      sio_rooms = [(''B'', ''B''), (''r1'', ''A''), (''A'', ''A'')],
      sio_connected = [''B'', ''A''], uuid_calls = 0\<rparr>"
  by (simp add: caller_outside_def alice_in_r1_eq handler_defs)


lemma alice_in_unnamed_eq:
  "alice_in_unnamed =
     \<lparr>active_rooms = [('''', [(''A'', ''alice'')])], messages = [('''', [])],
      sio_rooms = [('''', ''A''), (''A'', ''A'')], sio_connected = [''A''], uuid_calls = 0\<rparr>"
  by (simp add: alice_in_unnamed_def handler_defs)


lemma rooms_of_purge: "active_rooms s = purge c rooms \<Longrightarrow> rooms_of s c = []"
  by (auto simp: rooms_of_def filter_empty_conv set_purge contains_iff set_delete)

lemma on_join_other_rooms:
  "r \<noteq> get_default (jd_room_id d) ''lobby'' \<Longrightarrow>
     members (fst (on_join raises s c d now)) r = members s r \<and>
     history (fst (on_join raises s c d now)) r = history s r"
  by (auto simp: on_join_result Let_def members_def history_def AList.update_conv'
        split: option.splits)

lemma on_join_no_user_left: "list_all (\<lambda>e. \<not> is_user_left e) (fst (snd (on_join raises s c d now)))"
  by (auto simp: on_join_result Let_def is_user_left_def split: option.splits)

lemma rooms_of_empty:
  assumes "rooms_of s c = []"
  shows "map_of (members s r) c = None"
proof (cases "map_of (active_rooms s) r")
  case None
  then show ?thesis by (simp add: members_def)
next
  case (Some u)
  then have "(r, u) \<in> set (active_rooms s)" by (rule map_of_SomeD)
  with assms have "\<not> contains u c"
    by (auto simp: rooms_of_def filter_empty_conv)
  then show ?thesis using Some by (simp add: members_def contains_def)
qed

section \<open>Validation failures\<close>

text \<open>
  C3. Whenever \<open>on_join\<close> or \<open>handle_message\<close> answers with one of the four validation
  errors (invalid username, username taken, not in room, empty message), the state after
  the call is the state before it: the same rooms, the same members in every room and the
  same history in every room.
\<close>

theorem validation_errors_leave_store_unchanged:
  "(snd (snd (on_join raises s c jd now))
      \<in> {Inr InvalidUsername, Inr UsernameTaken, Inr NotInRoom, Inr EmptyMessage}
      \<longrightarrow> fst (on_join raises s c jd now) = s) \<and>
   (snd (snd (handle_message uuid s c' sd now'))
      \<in> {Inr InvalidUsername, Inr UsernameTaken, Inr NotInRoom, Inr EmptyMessage}
      \<longrightarrow> fst (handle_message uuid s c' sd now') = s)"
proof (intro conjI impI)
  assume "snd (snd (on_join raises s c jd now))
            \<in> {Inr InvalidUsername, Inr UsernameTaken, Inr NotInRoom, Inr EmptyMessage}"
  then show "fst (on_join raises s c jd now) = s"
    by (auto simp: on_join_result Let_def InvalidUsername_def
          UsernameTaken_def NotInRoom_def EmptyMessage_def split: if_splits option.splits)
next
  assume "snd (snd (handle_message uuid s c' sd now'))
            \<in> {Inr InvalidUsername, Inr UsernameTaken, Inr NotInRoom, Inr EmptyMessage}"
  then show "fst (handle_message uuid s c' sd now') = s"
    by (auto simp: handle_message_def Let_def InvalidUsername_def
          UsernameTaken_def NotInRoom_def EmptyMessage_def split: if_splits option.splits)
qed

theorem validation_errors_leave_store_unchanged_witness:
  "snd (snd (on_join refuse_sid_rooms alice_in_r1 ''B''
               \<lparr>jd_username = Some '' alice '', jd_room_id = Some ''r1''\<rparr> ''t2''))
     = Inr UsernameTaken \<and>
   fst (on_join refuse_sid_rooms alice_in_r1 ''B''
          \<lparr>jd_username = Some '' alice '', jd_room_id = Some ''r1''\<rparr> ''t2'') = alice_in_r1 \<and>
   snd (snd (handle_message uuid0 alice_in_r1 ''A''
               \<lparr>sd_room_id = Some ''r1'', sd_message = Some ''  '', sd_file = None\<rparr> ''t3''))
     = Inr EmptyMessage \<and>
   fst (handle_message uuid0 alice_in_r1 ''A''
          \<lparr>sd_room_id = Some ''r1'', sd_message = Some ''  '', sd_file = None\<rparr> ''t3'')
     = alice_in_r1"
proof -
  have j: "snd (snd (on_join refuse_sid_rooms alice_in_r1 ''B''
                      \<lparr>jd_username = Some '' alice '', jd_room_id = Some ''r1''\<rparr> ''t2''))
             = Inr UsernameTaken"
    by (simp add: alice_in_r1_eq handler_defs)
  have m: "snd (snd (handle_message uuid0 alice_in_r1 ''A''
                      \<lparr>sd_room_id = Some ''r1'', sd_message = Some ''  '', sd_file = None\<rparr>
                      ''t3''))
             = Inr EmptyMessage"
    by (simp add: alice_in_r1_eq handler_defs)
  show ?thesis
    using j m validation_errors_leave_store_unchanged
      [of refuse_sid_rooms alice_in_r1 "''B''"
          "\<lparr>jd_username = Some '' alice '', jd_room_id = Some ''r1''\<rparr>"
          "''t2''" uuid0 "''A''"
          "\<lparr>sd_room_id = Some ''r1'', sd_message = Some ''  '', sd_file = None\<rparr>" "''t3''"]
    by simp
qed

section \<open>Outcomes of join and send\<close>




text \<open>
  C5. In every state the server can reach, \<open>handle_message\<close> answers \<open>NotInRoom\<close>
  exactly when the sender is not a recorded member of the room the request names;
  otherwise it answers \<open>EmptyMessage\<close> exactly when the stripped text is empty and there is
  no attachment descriptor; otherwise it answers success.
\<close>

theorem handle_message_outcome:
  "snd (snd (handle_message uuid' (run raises uuid evs) c d now)) =
     (if \<not> in_room (run raises uuid evs) c (sd_room_id d) then Inr NotInRoom
      else if strip (get_default (sd_message d) '''') = [] \<and> sd_file d = None then Inr EmptyMessage
      else Inr Ack_success)"
proof -
  define s where "s = run raises uuid evs"
  have ka: "keys_agree s" using wf_run[of uuid raises evs] by (simp add: wf_state_def s_def)
  show ?thesis
    unfolding s_def[symmetric]
    using keys_agree_messages[OF ka]
    by (fastforce simp: handle_message_def Let_def in_room_def members_def contains_def
          NotInRoom_def EmptyMessage_def split: option.splits)
qed

section \<open>Invariants after every event\<close>

text \<open>
  C10. After every event handler, whatever the events so far, the room ids of
  \<open>active_rooms\<close> are the room ids of \<open>messages\<close>: a room has a history list exactly when
  it has a membership dictionary.
\<close>

theorem room_ids_agree_after_every_event:
  "set (map fst (active_rooms (run raises uuid evs))) = set (map fst (messages (run raises uuid evs)))"
  using wf_run[of uuid raises evs] by (simp add: wf_state_def keys_agree_def)

text \<open>
  C8. After every event (join, send, disconnect, in any order) the store holds no room
  without members; and when the connection that disconnects is the only member of a room,
  \<open>handle_disconnect\<close> itself removes the room from \<open>active_rooms\<close> and its history
  from \<open>messages\<close>.
\<close>

theorem no_room_without_members:
  "list_all (\<lambda>ru. snd ru \<noteq> []) (active_rooms (run raises uuid evs)) \<and>
   (set (map fst (members (run raises uuid evs) r)) = {c} \<longrightarrow>
      \<not> contains (active_rooms (fst (handle_disconnect (run raises uuid evs) c now))) r \<and>
      \<not> contains (messages (fst (handle_disconnect (run raises uuid evs) c now))) r)"
proof (intro conjI impI)
  define s where "s = run raises uuid evs"
  have wf: "wf_state uuid s" by (simp add: s_def wf_run)
  show "list_all (\<lambda>ru. snd ru \<noteq> []) (active_rooms (run raises uuid evs))"
    using wf by (simp add: wf_state_def no_empty_room_def s_def)
  assume sole: "set (map fst (members (run raises uuid evs) r)) = {c}"
  then obtain u where u: "map_of (active_rooms s) r = Some u" "fst ` set u = {c}"
    by (cases "map_of (active_rooms s) r") (auto simp: members_def s_def)
  have "contains u c" using u(2) by (simp add: contains_iff)
  moreover have "AList.delete c u = []"
  proof -
    have "fst p = c" if "p \<in> set u" for p
      using that u(2) by blast
    then show ?thesis by (auto simp: AList.delete_eq filter_empty_conv)
  qed
  ultimately have e: "emptied c (r, u)" by (simp add: emptied_def)
  have mem: "(r, u) \<in> set (active_rooms s)" using u(1) by (rule map_of_SomeD)
  have gone: "r \<in> fst ` set (filter (emptied c) (active_rooms s))"
    using e mem by force
  have d: "distinct (map fst (active_rooms s))" using wf by (simp add: wf_state_def rooms_distinct_def)
  have "r \<notin> fst ` set (active_rooms (fst (handle_disconnect s c now)))"
    using wf gone keys_purge_eq[OF d, of c]
    by (simp add: handle_disconnect_active wf_state_def)
  moreover have "r \<notin> fst ` set (messages (fst (handle_disconnect s c now)))"
    using gone by (force simp: handle_disconnect_messages)
  ultimately show
    "\<not> contains (active_rooms (fst (handle_disconnect (run raises uuid evs) c now))) r"
    "\<not> contains (messages (fst (handle_disconnect (run raises uuid evs) c now))) r"
    by (simp_all add: contains_iff s_def)
qed

theorem no_room_without_members_witness:
  "list_all (\<lambda>ru. snd ru \<noteq> []) (active_rooms alice_in_r1) \<and>
   active_rooms alice_in_r1 \<noteq> [] \<and>
   set (map fst (members alice_in_r1 ''r1'')) = {''A''} \<and>
   \<not> contains (active_rooms (fst (handle_disconnect alice_in_r1 ''A'' (\<lambda>r. ''t4'')))) ''r1'' \<and>
   \<not> contains (messages (fst (handle_disconnect alice_in_r1 ''A'' (\<lambda>r. ''t4'')))) ''r1''"
proof -
  have sole: "set (map fst (members alice_in_r1 ''r1'')) = {''A''}"
    by (simp add: alice_in_r1_eq members_def)
  have ne: "active_rooms alice_in_r1 \<noteq> []"
    by (simp add: alice_in_r1_eq)
  show ?thesis
    using sole ne
      no_room_without_members
        [of refuse_sid_rooms uuid0
            "[Connect ''A'',
              Join ''A'' \<lparr>jd_username = Some ''alice'', jd_room_id = Some ''r1''\<rparr> ''t1'']"
            "''r1''" "''A''" "\<lambda>r. ''t4''", folded alice_in_r1_def]
    by simp
qed

section \<open>History replayed to a joining client\<close>

text \<open>
  C7. A successful \<open>on_join\<close> emits the join confirmation first, to the joining
  connection, and the messages it carries are the last at most 50 messages of the room's
  history in their stored order: a suffix of the history of length \<open>min 50\<close> of its
  length. With 60 messages in the history these are the messages 11 to 60.
\<close>

theorem join_confirmation_replays_last_50:
  assumes "on_join raises s c d now = (s', es, Inr Ack_success)"
  shows "\<exists>replay notice.
           es = [Emit (Join_confirmation (strip (get_default (jd_username d) ''''))
                         (get_default (jd_room_id d) ''lobby'')
                         (map snd (members s' (get_default (jd_room_id d) ''lobby''))) replay)
                   None True, notice] \<and>
           (\<exists>older. history s' (get_default (jd_room_id d) ''lobby'') = older @ replay) \<and>
           length replay = min 50 (length (history s' (get_default (jd_room_id d) ''lobby''))) \<and>
           (length (history s' (get_default (jd_room_id d) ''lobby'')) = 60 \<longrightarrow>
              replay = drop 10 (history s' (get_default (jd_room_id d) ''lobby''))) \<and>
           history s' (get_default (jd_room_id d) ''lobby'') =
             (if contains (active_rooms s) (get_default (jd_room_id d) ''lobby'')
              then history s (get_default (jd_room_id d) ''lobby'') else [])"
proof -
  define r where "r = get_default (jd_room_id d) ''lobby''"
  define u where "u = strip (get_default (jd_username d) '''')"
  define replay where "replay = slice_last 50 (history s' r)"
  have es: "\<exists>notice. es = [Emit (Join_confirmation u r (map snd (members s' r)) replay) None True, notice]"
    and h: "history s' r = (if contains (active_rooms s) r then history s r else [])"
    using assms unfolding replay_def r_def u_def
    by (auto simp: on_join_result Let_def contains_def members_def history_def
          AList.update_conv' InvalidUsername_def UsernameTaken_def
          split: if_splits option.splits)
  have "\<exists>older. history s' r = older @ replay"
    unfolding replay_def by (rule slice_last_suffix)
  moreover have "length replay = min 50 (length (history s' r))"
    unfolding replay_def by (rule length_slice_last)
  moreover have "length (history s' r) = 60 \<longrightarrow> replay = drop 10 (history s' r)"
    unfolding replay_def by (simp add: slice_last_def)
  ultimately show ?thesis
    using es h unfolding r_def u_def by blast
qed

theorem join_confirmation_replays_last_50_witness:
  "length (history r1_with_sixty ''r1'') = 60 \<and>
   (\<exists>s' notice.
      on_join refuse_sid_rooms r1_with_sixty ''B'' \<lparr>jd_username = Some ''bob'', jd_room_id = Some ''r1''\<rparr> ''t5''
        = (s', [Emit (Join_confirmation ''bob'' ''r1'' [''alice'', ''bob''] (drop 10 sixty)) None True,
                notice], Inr Ack_success))"
proof -
  have len: "length sixty = 60" by (simp add: sixty_def)
  have run: "on_join refuse_sid_rooms r1_with_sixty ''B'' \<lparr>jd_username = Some ''bob'', jd_room_id = Some ''r1''\<rparr> ''t5''
      = (r1_with_sixty\<lparr>active_rooms := [(''r1'', [(''A'', ''alice''), (''B'', ''bob'')])],
           sio_rooms := [(''r1'', ''B''), (''r1'', ''A''), (''A'', ''A''), (''B'', ''B'')]\<rparr>,
         [Emit (Join_confirmation ''bob'' ''r1'' [''alice'', ''bob''] (slice_last 50 sixty)) None True,
          Emit (User_joined ''System'' ''bob has joined the room'' [''alice'', ''bob''] ''t5'')
            (Some ''r1'') False],
         Inr Ack_success)"
    by (simp add: r1_with_sixty_def on_join_def strip_def isspace_def contains_def join_room_def
          refuse_sid_rooms_def Let_def)
  have hist: "history (r1_with_sixty\<lparr>active_rooms := [(''r1'', [(''A'', ''alice''), (''B'', ''bob'')])],
           sio_rooms := [(''r1'', ''B''), (''r1'', ''A''), (''A'', ''A''), (''B'', ''B'')]\<rparr>) ''r1'' = sixty"
    by (simp add: r1_with_sixty_def history_def)
  have "slice_last 50 sixty = drop 10 sixty"
    using join_confirmation_replays_last_50[OF run] len by (simp add: hist)
  then show ?thesis
    using run len by (simp add: history_def r1_with_sixty_def)
qed

section \<open>Sending a message\<close>




section \<open>Membership in several rooms\<close>

text \<open>
  C1, as stated, fails: a connection that is a member of \<open>r1\<close> and joins \<open>r2\<close> is a
  member of both afterwards, and the join emits the confirmation and the joined notice
  only, no departure notification for \<open>r1\<close>.
\<close>

theorem connection_in_two_rooms:
  "rooms_of (fst (on_join refuse_sid_rooms alice_in_r1 ''A''
                    \<lparr>jd_username = Some ''alice'', jd_room_id = Some ''r2''\<rparr> ''t2'')) ''A''
     = [''r1'', ''r2''] \<and>
   fst (snd (on_join refuse_sid_rooms alice_in_r1 ''A''
               \<lparr>jd_username = Some ''alice'', jd_room_id = Some ''r2''\<rparr> ''t2''))
     = [Emit (Join_confirmation ''alice'' ''r2'' [''alice''] []) None True,
        Emit (User_joined ''System'' ''alice has joined the room'' [''alice''] ''t2'')
          (Some ''r2'') False] \<and>
   snd (snd (on_join refuse_sid_rooms alice_in_r1 ''A''
               \<lparr>jd_username = Some ''alice'', jd_room_id = Some ''r2''\<rparr> ''t2''))
     = Inr Ack_success"
  by (simp add: alice_in_r1_eq handler_defs rooms_of_def)

text \<open>
  C1, amended. \<open>on_join\<close> performs no implicit leave: it leaves the members and the
  history of every room other than the target room as they are and emits no departure
  notification. A connection is removed by \<open>handle_disconnect\<close>, from every room that
  lists it: in every state the server can reach, no room lists the connection afterwards.
\<close>

theorem join_leaves_other_rooms_alone:
  "(r \<noteq> get_default (jd_room_id d) ''lobby'' \<longrightarrow>
      members (fst (on_join raises s c d now)) r = members s r \<and>
      history (fst (on_join raises s c d now)) r = history s r) \<and>
   list_all (\<lambda>e. \<not> is_user_left e) (fst (snd (on_join raises s c d now))) \<and>
   rooms_of (fst (handle_disconnect (run raises uuid evs) c' now')) c' = []"
proof -
  have "rooms_distinct (run raises uuid evs)" using wf_run[of uuid raises evs] by (simp add: wf_state_def)
  then have "active_rooms (fst (handle_disconnect (run raises uuid evs) c' now'))
               = purge c' (active_rooms (run raises uuid evs))"
    by (rule handle_disconnect_active)
  then have "rooms_of (fst (handle_disconnect (run raises uuid evs) c' now')) c' = []"
    by (rule rooms_of_purge)
  then show ?thesis
    using on_join_other_rooms[of r d raises s c now] on_join_no_user_left[of raises s c d now]
    by blast
qed

theorem join_leaves_other_rooms_alone_witness:
  "''r1'' \<noteq> get_default (jd_room_id \<lparr>jd_username = Some ''alice'', jd_room_id = Some ''r2''\<rparr>) ''lobby'' \<and>
   members (fst (on_join refuse_sid_rooms alice_in_r1 ''A''
                   \<lparr>jd_username = Some ''alice'', jd_room_id = Some ''r2''\<rparr> ''t2'')) ''r1''
     = [(''A'', ''alice'')] \<and>
   rooms_of alice_in_r1 ''A'' = [''r1''] \<and>
   rooms_of (fst (handle_disconnect alice_in_r1 ''A'' (\<lambda>r. ''t3''))) ''A'' = []"
proof -
  have m: "members alice_in_r1 ''r1'' = [(''A'', ''alice'')]"
    by (simp add: alice_in_r1_eq members_def)
  have ro: "rooms_of alice_in_r1 ''A'' = [''r1'']"
    by (simp add: alice_in_r1_eq rooms_of_def contains_def)
  show ?thesis
    using m ro
      join_leaves_other_rooms_alone
        [of "''r1''" "\<lparr>jd_username = Some ''alice'', jd_room_id = Some ''r2''\<rparr>"
            refuse_sid_rooms alice_in_r1 "''A''" "''t2''" uuid0
            "[Connect ''A'',
              Join ''A'' \<lparr>jd_username = Some ''alice'', jd_room_id = Some ''r1''\<rparr> ''t1'']"
            "''A''" "\<lambda>r. ''t3''", folded alice_in_r1_def]
    by simp
qed

section \<open>Signalling relay\<close>

text \<open>
  C2, as stated, fails: \<open>A\<close> is in room \<open>r1\<close> as \<open>alice\<close>, yet an offer sent without
  a \<open>room_id\<close> is relayed with the marker \<open>Someone\<close>, and the relayed answer and candidate
  carry no username at all.
\<close>

theorem relay_without_sender_username:
  "map_of (members two_in_r1 ''r1'') ''A'' = Some ''alice'' \<and>
   map (\<lambda>e. relayed_username (payload e))
     (handle_offer two_in_r1 ''A''
        \<lparr>od_target_sid = Some ''B'', od_offer = Some ''sdp'', od_room_id = None\<rparr>)
     = [Some ''Someone''] \<and>
   map (\<lambda>e. relayed_username (payload e))
     (handle_answer two_in_r1 ''A'' \<lparr>gd_target_sid = Some ''B'', gd_payload = Some ''sdp''\<rparr>)
     = [None] \<and>
   map (\<lambda>e. relayed_username (payload e))
     (handle_ice_candidate two_in_r1 ''A'' \<lparr>gd_target_sid = Some ''B'', gd_payload = Some ''ice''\<rparr>)
     = [None]"
  by (simp add: two_in_r1_eq handler_defs members_def relayed_username_def)

text \<open>
  C2, amended. Each of the three handlers emits exactly one event, addressed to
  \<open>target_sid\<close>, with the payload as received and the sender's connection id. The offer
  also carries a username: the one recorded for the sender in the room whose id is the
  request's \<open>room_id\<close>, a request without \<open>room_id\<close> standing for the room whose id is the
  empty string; it carries the marker \<open>Someone\<close> when that room does not exist or does
  not list the sender, in particular whenever the sender is in no room. The answer and the
  candidate carry no username.
\<close>

theorem relayed_sender_identity:
  "handle_offer s c d =
     [Emit (Webrtc_offer (od_offer d) c
              (get_default (map_of (members s (get_default (od_room_id d) '''')) c) ''Someone''))
        (od_target_sid d) True] \<and>
   (rooms_of s c = [] \<longrightarrow>
      handle_offer s c d = [Emit (Webrtc_offer (od_offer d) c ''Someone'') (od_target_sid d) True]) \<and>
   handle_answer s c g = [Emit (Webrtc_answer (gd_payload g) c) (gd_target_sid g) True] \<and>
   handle_ice_candidate s c g = [Emit (Ice_candidate (gd_payload g) c) (gd_target_sid g) True] \<and>
   map (\<lambda>e. relayed_username (payload e)) (handle_answer s c g) = [None] \<and>
   map (\<lambda>e. relayed_username (payload e)) (handle_ice_candidate s c g) = [None]"
proof -
  have o: "handle_offer s c d =
     [Emit (Webrtc_offer (od_offer d) c
              (get_default (map_of (members s (get_default (od_room_id d) '''')) c) ''Someone''))
        (od_target_sid d) True]"
    by (simp add: handle_offer_def members_def)
  moreover have "rooms_of s c = [] \<longrightarrow>
      handle_offer s c d = [Emit (Webrtc_offer (od_offer d) c ''Someone'') (od_target_sid d) True]"
    by (simp add: o rooms_of_empty)
  ultimately show ?thesis
    by (simp add: handle_answer_def handle_ice_candidate_def relayed_username_def)
qed

theorem relayed_sender_identity_witness:
  "rooms_of caller_outside ''B'' = [] \<and>
   handle_offer caller_outside ''B''
       \<lparr>od_target_sid = Some ''A'', od_offer = Some ''sdp'', od_room_id = Some ''r1''\<rparr>
     = [Emit (Webrtc_offer (Some ''sdp'') ''B'' ''Someone'') (Some ''A'') True] \<and>
   handle_offer caller_outside ''A''
       \<lparr>od_target_sid = Some ''B'', od_offer = Some ''sdp'', od_room_id = Some ''r1''\<rparr>
     = [Emit (Webrtc_offer (Some ''sdp'') ''A'' ''alice'') (Some ''B'') True] \<and>
   handle_offer alice_in_unnamed ''A''
       \<lparr>od_target_sid = Some ''B'', od_offer = Some ''sdp'', od_room_id = None\<rparr>
     = [Emit (Webrtc_offer (Some ''sdp'') ''A'' ''alice'') (Some ''B'') True]"
proof -
  have ro: "rooms_of caller_outside ''B'' = []"
    by (simp add: caller_outside_eq rooms_of_def contains_def)
  have m: "map_of (members caller_outside ''r1'') ''A'' = Some ''alice''"
    by (simp add: caller_outside_eq members_def)
  have m': "map_of (members alice_in_unnamed '''') ''A'' = Some ''alice''"
    by (simp add: alice_in_unnamed_eq members_def)
  have b: "handle_offer caller_outside ''B''
       \<lparr>od_target_sid = Some ''A'', od_offer = Some ''sdp'', od_room_id = Some ''r1''\<rparr>
     = [Emit (Webrtc_offer (Some ''sdp'') ''B'' ''Someone'') (Some ''A'') True]"
    using relayed_sender_identity
        [of caller_outside "''B''"
            "\<lparr>od_target_sid = Some ''A'', od_offer = Some ''sdp'', od_room_id = Some ''r1''\<rparr>",
         THEN conjunct2, THEN conjunct1, rule_format, OF ro]
    by simp
  have a: "handle_offer caller_outside ''A''
       \<lparr>od_target_sid = Some ''B'', od_offer = Some ''sdp'', od_room_id = Some ''r1''\<rparr>
     = [Emit (Webrtc_offer (Some ''sdp'') ''A'' ''alice'') (Some ''B'') True]"
    using relayed_sender_identity
        [of caller_outside "''A''"
            "\<lparr>od_target_sid = Some ''B'', od_offer = Some ''sdp'', od_room_id = Some ''r1''\<rparr>",
         THEN conjunct1]
    by (simp add: m)
  have u: "handle_offer alice_in_unnamed ''A''
       \<lparr>od_target_sid = Some ''B'', od_offer = Some ''sdp'', od_room_id = None\<rparr>
     = [Emit (Webrtc_offer (Some ''sdp'') ''A'' ''alice'') (Some ''B'') True]"
    using relayed_sender_identity
        [of alice_in_unnamed "''A''"
            "\<lparr>od_target_sid = Some ''B'', od_offer = Some ''sdp'', od_room_id = None\<rparr>",
         THEN conjunct1]
    by (simp add: m')
  show ?thesis
    using ro a b u by simp
qed

text \<open>
  C9, as stated, fails: \<open>r1\<close> is not the id of a live connection, yet an offer whose
  target is \<open>r1\<close> is delivered, to the member of the room of that name.
\<close>

theorem relay_to_room_name_is_delivered:
  "''r1'' \<notin> set (sio_connected caller_outside) \<and>
   map (recipients caller_outside ''B'')
     (handle_offer caller_outside ''B''
        \<lparr>od_target_sid = Some ''r1'', od_offer = Some ''sdp'', od_room_id = None\<rparr>)
     = [[''A'']]"
  by (simp add: caller_outside_eq handler_defs recipients_def)

text \<open>
  C9, amended. When the target is a non-empty string and no connection is in a
  Flask-SocketIO room of that name, each of the three relays emits one event that reaches
  no connection and leaves the state as it is; the handlers return no acknowledgement and
  have no error outcome. In every state the server can reach, each live connection is in
  the room named by its own id, so such a target is not the id of a live connection.
\<close>

theorem relay_to_unknown_target:
  assumes "t \<noteq> []" and "t \<notin> fst ` set (sio_rooms s)"
    and "od_target_sid d = Some t" and "gd_target_sid g = Some t"
  shows "map (recipients s c) (handle_offer s c d) = [[]] \<and>
         map (recipients s c) (handle_answer s c g) = [[]] \<and>
         map (recipients s c) (handle_ice_candidate s c g) = [[]] \<and>
         step raises uuid s (Offer c d) = s \<and> step raises uuid s (Answer c g) = s \<and>
         step raises uuid s (Candidate c g) = s \<and>
         (\<forall>x. x \<notin> fst ` set (sio_rooms (run raises uuid evs))
                 \<longrightarrow> x \<notin> set (sio_connected (run raises uuid evs)))"
proof -
  have "filter (\<lambda>rc. fst rc = t) (sio_rooms s) = []"
    using assms(2) by (auto simp: filter_empty_conv)
  moreover have "\<forall>x. x \<notin> fst ` set (sio_rooms (run raises uuid evs))
                 \<longrightarrow> x \<notin> set (sio_connected (run raises uuid evs))"
    using wf_run[of uuid raises evs] unfolding wf_state_def own_rooms_iff by force
  ultimately show ?thesis
    using assms(1,3,4)
    by (simp add: handle_offer_def handle_answer_def handle_ice_candidate_def recipients_def)
qed

theorem relay_to_unknown_target_witness:
  "''B'' \<noteq> [] \<and> ''B'' \<notin> fst ` set (sio_rooms bob_gone) \<and>
   map (recipients bob_gone ''A'')
     (handle_offer bob_gone ''A''
        \<lparr>od_target_sid = Some ''B'', od_offer = Some ''sdp'', od_room_id = Some ''r1''\<rparr>)
     = [[]] \<and>
   map (recipients bob_gone ''A'')
     (handle_answer bob_gone ''A'' \<lparr>gd_target_sid = Some ''B'', gd_payload = Some ''sdp''\<rparr>)
     = [[]]"
proof -
  have n: "''B'' \<noteq> []" by simp
  have t: "''B'' \<notin> fst ` set (sio_rooms bob_gone)"
    by (simp add: bob_gone_eq)
  show ?thesis
    using t relay_to_unknown_target
        [OF n t, of "\<lparr>od_target_sid = Some ''B'', od_offer = Some ''sdp'', od_room_id = Some ''r1''\<rparr>"
           "\<lparr>gd_target_sid = Some ''B'', gd_payload = Some ''sdp''\<rparr>" "''A''"]
    by simp
qed

end
